theory Spec2Isabelle
  imports Complex_Main "HOL-Library.Multiset" "HOL-Library.Log_Nat"
begin

section \<open>JavaScript numbers\<close>

text \<open>
  A JavaScript \<open>Number\<close> is a double (IEEE 754 binary64). Its value is modelled as a
  rational; \<open>NaN\<close> and the infinities are not values here, and every division of the
  code below is guarded by the source against a zero divisor, or is noted where it is
  not.

  Two computations are modelled with the rounding of each arithmetic result to the
  nearest double (ties to the even significand) written out: the division of the
  reward pool, whose result is stored and returned as it is, and the progress
  percentage of a project, where the integer finally stored depends on whether a
  product lands on a half or just off it. The exponent range is taken unbounded (no
  overflow, no subnormal numbers). The sums, means and weighted sums of the other
  functions are taken exact.
\<close>

type_synonym number = rat

text \<open>The exponent \<open>e\<close> with \<open>2\<^sup>e \<le> |x| < 2\<^sup>e\<^sup>+\<^sup>1\<close>, for \<open>x\<close> other than 0.\<close>

definition binade :: "rat \<Rightarrow> int" where
  "binade x =
     (if 1 \<le> \<bar>x\<bar> then bitlen \<lfloor>\<bar>x\<bar>\<rfloor> - 1 else - bitlen (\<lceil>1 / \<bar>x\<bar>\<rceil> - 1))"

definition round_ties_even :: "rat \<Rightarrow> int" where
  "round_ties_even r =
     (let f = \<lfloor>r\<rfloor>; d = r - of_int f
      in if d < 1 / 2 then f
         else if 1 / 2 < d then f + 1
         else if even f then f else f + 1)"

text \<open>
  The double nearest to \<open>x\<close>: \<open>x\<close> is scaled so that its significand is an integer of
  53 bits, rounded there, and scaled back.
\<close>

definition binary64 :: "rat \<Rightarrow> number" where
  "binary64 x =
     (if x = 0 then 0
      else let ulp = 2 powi (binade x - 52)
           in of_int (round_ties_even (x / ulp)) * ulp)"

text \<open>The operators \<open>/\<close> and \<open>*\<close> on doubles: the exact result, rounded once.\<close>

definition js_divide :: "number \<Rightarrow> number \<Rightarrow> number" where
  "js_divide a b = binary64 (a / b)"

definition js_times :: "number \<Rightarrow> number \<Rightarrow> number" where
  "js_times a b = binary64 (a * b)"

text \<open>
  \<open>Math.round\<close>: the integer nearest to the argument, the larger one of the two on a
  tie. It is defined on the value of the double, without a further rounding.
\<close>

definition Math_round :: "number \<Rightarrow> int" where
  "Math_round x = \<lfloor>x + 1 / 2\<rfloor>"

text \<open>
  The rationals that are doubles: a significand of at most 53 bits times a power of two.
  \<open>is_double\<close> tests it by rounding; the two agree (\<open>is_double_iff\<close> below).
\<close>

definition representable :: "rat \<Rightarrow> bool" where
  "representable x \<longleftrightarrow> (\<exists>m e. \<bar>m\<bar> < 2 ^ 53 \<and> x = of_int m * 2 powi e)"

definition is_double :: "number \<Rightarrow> bool" where
  "is_double x \<longleftrightarrow> binary64 x = x"

text \<open>\<open>n || 1\<close> on a length: the fallback is taken exactly when \<open>n\<close> is \<open>0\<close>.\<close>

definition or_one :: "nat \<Rightarrow> nat" where
  "or_one n = (if n = 0 then 1 else n)"

section \<open>The relational store behind \<open>admin.service.js\<close>\<close>

text \<open>
  The Sequelize models \<open>projects\<close>, \<open>project_members\<close>, \<open>reward_calculations\<close> and
  \<open>rewards\<close>, with the columns the reward calculation reads or writes. Every table has
  a column \<open>id\<close> and several have \<open>project_id\<close>, \<open>user_id\<close> or \<open>status\<close>; the record
  fields carry the table as a prefix to keep them apart.
\<close>

datatype calculation_status = PRELIMINARY | PENDING_APPROVAL | APPROVED | PAID

record projects_row =
  projects_id :: int
  projects_name :: string

record project_members_row =
  project_members_id :: int
  project_members_project_id :: int
  project_members_user_id :: int

record reward_calculations_row =
  reward_calculations_id :: int
  reward_calculations_project_id :: int
  reward_calculations_reward_policy_id :: int
  reward_calculations_total_reward_pool :: number
  reward_calculations_status :: calculation_status

record rewards_row =
  rewards_id :: int
  rewards_calculation_id :: int
  rewards_user_id :: int
  rewards_amount :: number

record db =
  projects :: "projects_row list"
  project_members :: "project_members_row list"
  reward_calculations :: "reward_calculations_row list"
  rewards :: "rewards_row list"

text \<open>
  An \<open>await\<close> either resolves with a value or rejects with an error message. Which ORM
  calls reject is decided by the environment, here a record of faults: the lookup, the
  creation of the calculation row, and the creation of the reward row of the member at
  a given position (counted from 0) of the loop.
\<close>

datatype 'a completion = Resolved 'a | Rejected string

record faults =
  findByPk_rejects :: bool
  calculation_create_rejects :: bool
  reward_create_rejects :: "nat \<Rightarrow> bool"
  error_message :: string

text \<open>\<open>autoIncrement\<close>: a new row gets an \<open>id\<close> above every \<open>id\<close> of its table.\<close>

definition autoIncrement :: "int list \<Rightarrow> int" where
  "autoIncrement ids = foldr max ids 0 + 1"

text \<open>
  \<open>models.projects.findByPk(id, { include: project_members })\<close>: the project with that
  primary key, if any, with the rows of \<open>project_members\<close> that reference it. The
  included association is always an array, possibly empty, so the fallback of
  \<open>project.project_members || []\<close> is never taken and \<open>members\<close> is that array.
\<close>

definition findByPk :: "db \<Rightarrow> int \<Rightarrow> (projects_row \<times> project_members_row list) option" where
  "findByPk d pk =
     (case find (\<lambda>p. projects_id p = pk) (projects d) of
        None \<Rightarrow> None
      | Some p \<Rightarrow> Some (p, filter (\<lambda>m. project_members_project_id m = pk) (project_members d)))"

definition reward_calculations_create ::
  "db \<Rightarrow> int \<Rightarrow> int \<Rightarrow> number \<Rightarrow> calculation_status \<Rightarrow> reward_calculations_row \<times> db" where
  "reward_calculations_create d project_id reward_policy_id total_reward_pool status =
     (let row = \<lparr> reward_calculations_id =
                     autoIncrement (map reward_calculations_id (reward_calculations d)),
                   reward_calculations_project_id = project_id,
                   reward_calculations_reward_policy_id = reward_policy_id,
                   reward_calculations_total_reward_pool = total_reward_pool,
                   reward_calculations_status = status \<rparr>
      in (row, d\<lparr>reward_calculations := reward_calculations d @ [row]\<rparr>))"

definition rewards_create :: "db \<Rightarrow> int \<Rightarrow> int \<Rightarrow> number \<Rightarrow> rewards_row \<times> db" where
  "rewards_create d calculation_id user_id amount =
     (let row = \<lparr> rewards_id = autoIncrement (map rewards_id (rewards d)),
                   rewards_calculation_id = calculation_id,
                   rewards_user_id = user_id,
                   rewards_amount = amount \<rparr>
      in (row, d\<lparr>rewards := rewards d @ [row]\<rparr>))"

subsection \<open>\<open>calculateReward\<close> (service)\<close>

text \<open>The request body \<open>{ project_id, reward_policy_id, total_reward_pool }\<close>.\<close>

record reward_request =
  project_id :: int
  reward_policy_id :: int
  total_reward_pool :: number

text \<open>
  The two objects the service returns: \<open>{ error }\<close> and \<open>{ calculation_id, perMember }\<close>.
\<close>

datatype reward_result = Error_object string | Calculation_result int number

text \<open>
  The loop \<open>for (const m of members) await models.rewards.create(...)\<close>, from the member
  at position \<open>i\<close> on. The first rejected creation leaves the loop at once (the
  exception propagates); the rows written before it stay in the store, since no
  transaction surrounds the writes. The flag tells whether the loop ran to its end.
\<close>

fun create_rewards ::
  "(nat \<Rightarrow> bool) \<Rightarrow> nat \<Rightarrow> int \<Rightarrow> number \<Rightarrow> project_members_row list \<Rightarrow> db \<Rightarrow> bool \<times> db" where
  "create_rewards rejects i calculation_id perMember [] d = (True, d)"
| "create_rewards rejects i calculation_id perMember (m # ms) d =
     (if rejects i then (False, d)
      else create_rewards rejects (Suc i) calculation_id perMember ms
             (snd (rewards_create d calculation_id (project_members_user_id m) perMember)))"

definition calculateReward :: "faults \<Rightarrow> db \<Rightarrow> reward_request \<Rightarrow> reward_result completion \<times> db" where
  "calculateReward f d data =
     (if findByPk_rejects f then (Rejected (error_message f), d)
      else case findByPk d (project_id data) of
        None \<Rightarrow> (Resolved (Error_object ''Project not found''), d)
      | Some (project, members) \<Rightarrow>
          (let perMember = js_divide (total_reward_pool data) (of_nat (or_one (length members)))
           in if calculation_create_rejects f then (Rejected (error_message f), d)
              else
                (let (calculation, d1) =
                       reward_calculations_create d (project_id data) (reward_policy_id data)
                         (total_reward_pool data) PRELIMINARY;
                     (finished, d2) =
                       create_rewards (reward_create_rejects f) 0
                         (reward_calculations_id calculation) perMember members d1
                 in if finished
                    then (Resolved (Calculation_result (reward_calculations_id calculation) perMember), d2)
                    else (Rejected (error_message f), d2))))"

subsection \<open>\<open>calculateReward\<close> (controller)\<close>

text \<open>
  \<open>res.json(result)\<close> answers with status 200 whatever object the service returned;
  only a rejection reaches the \<open>catch\<close> branch and status 500. The message of that
  branch is Vietnamese in the source and written here without its diacritics.
\<close>

datatype json_body = Json_result reward_result | Json_failure string string

record http_response =
  status_code :: nat
  body :: json_body

definition calculateReward_controller ::
  "faults \<Rightarrow> db \<Rightarrow> reward_request \<Rightarrow> http_response \<times> db" where
  "calculateReward_controller f d req_body =
     (case calculateReward f d req_body of
        (Resolved result, d') \<Rightarrow> (\<lparr> status_code = 200, body = Json_result result \<rparr>, d')
      | (Rejected msg, d') \<Rightarrow>
          (\<lparr> status_code = 500, body = Json_failure ''Loi khi tinh thuong'' msg \<rparr>, d'))"

text \<open>The reward rows a call added to the table: those behind the rows of the old store.\<close>

definition created_rewards :: "db \<Rightarrow> db \<Rightarrow> rewards_row list" where
  "created_rewards d d' = drop (length (rewards d)) (rewards d')"

definition example_db :: db where
  "example_db =
     \<lparr> projects = [\<lparr> projects_id = 1, projects_name = ''Alpha'' \<rparr>,
                   \<lparr> projects_id = 2, projects_name = ''Beta'' \<rparr>],
       project_members =
         [\<lparr> project_members_id = 1, project_members_project_id = 1, project_members_user_id = 11 \<rparr>,
          \<lparr> project_members_id = 2, project_members_project_id = 1, project_members_user_id = 12 \<rparr>,
          \<lparr> project_members_id = 3, project_members_project_id = 1, project_members_user_id = 13 \<rparr>],
       reward_calculations = [],
       rewards = [] \<rparr>"

definition no_faults :: faults where
  "no_faults = \<lparr> findByPk_rejects = False, calculation_create_rejects = False,
                 reward_create_rejects = (\<lambda>i. False), error_message = [] \<rparr>"

definition second_reward_fault :: faults where
  "second_reward_fault = \<lparr> findByPk_rejects = False, calculation_create_rejects = False,
                 reward_create_rejects = (\<lambda>i. i = 1), error_message = ''connection lost'' \<rparr>"

definition example_request :: reward_request where
  "example_request = \<lparr> project_id = 1, reward_policy_id = 5, total_reward_pool = 900000 \<rparr>"

definition empty_project_request :: reward_request where
  "empty_project_request = \<lparr> project_id = 2, reward_policy_id = 5, total_reward_pool = 900000 \<rparr>"

definition missing_project_request :: reward_request where
  "missing_project_request = \<lparr> project_id = 7, reward_policy_id = 5, total_reward_pool = 900000 \<rparr>"

section \<open>The \<open>Commission\<close> document (Mongoose)\<close>

text \<open>
  The paths of the schema that the virtuals and the \<open>pre('save')\<close> hook read or write.
  All of them are of type \<open>Number\<close> except \<open>role\<close>.
\<close>

datatype commission_role = developer | designer | tester | analyst | lead | consultant

record performanceMetrics_doc =
  kpiScore :: number
  qualityScore :: number
  efficiencyScore :: number
  teamworkScore :: number
  innovationScore :: number

record projectMetrics_doc =
  projectProgress :: number
  projectProfit :: number
  clientSatisfaction :: number
  deadlineAdherence :: number

record aiCalculations_doc =
  performanceBonus :: number
  projectBonus :: number
  qualityBonus :: number
  innovationBonus :: number
  totalBonus :: number

record manualAdjustments_doc =
  adjustmentAmount :: number

record commission =
  role :: commission_role
  baseSalary :: number
  performanceMetrics :: performanceMetrics_doc
  projectMetrics :: projectMetrics_doc
  aiCalculations :: aiCalculations_doc
  manualAdjustments :: manualAdjustments_doc
  finalAmount :: number

text \<open>The virtual \<open>totalScore\<close>. It reads \<open>projectMetrics\<close> into a local and never uses it.\<close>

definition totalScore :: "commission \<Rightarrow> number" where
  "totalScore this =
     (let performance = performanceMetrics this
      in kpiScore performance * (3 / 10) +
         qualityScore performance * (2 / 10) +
         efficiencyScore performance * (2 / 10) +
         teamworkScore performance * (15 / 100) +
         innovationScore performance * (15 / 100))"

text \<open>The virtual \<open>projectScore\<close>.\<close>

definition projectScore :: "commission \<Rightarrow> number" where
  "projectScore this =
     (let project = projectMetrics this
      in projectProgress project * (3 / 10) +
         clientSatisfaction project * (3 / 10) +
         deadlineAdherence project * (4 / 10))"

text \<open>
  The \<open>pre('save')\<close> hook, statement by statement: first \<open>finalAmount\<close> is assigned from
  the \<open>totalBonus\<close> the document holds at that moment, then \<open>totalBonus\<close> is assigned
  from the four bonus components.
\<close>

definition commission_pre_save :: "commission \<Rightarrow> commission" where
  "commission_pre_save this =
     (let this1 = this\<lparr> finalAmount :=
                    baseSalary this + totalBonus (aiCalculations this) +
                    adjustmentAmount (manualAdjustments this) \<rparr>;
          this2 = this1\<lparr> aiCalculations := (aiCalculations this1)\<lparr> totalBonus :=
                    performanceBonus (aiCalculations this1) +
                    projectBonus (aiCalculations this1) +
                    qualityBonus (aiCalculations this1) +
                    innovationBonus (aiCalculations this1) \<rparr> \<rparr>
      in this2)"

text \<open>
  A freshly built developer commission: a perfect KPI score, every other score at its
  default \<open>0\<close>, a performance bonus just computed, \<open>totalBonus\<close> still at its default.
\<close>

definition new_commission :: commission where
  "new_commission =
     \<lparr> role = developer, baseSalary = 1000,
       performanceMetrics = \<lparr> kpiScore = 100, qualityScore = 0, efficiencyScore = 0,
                              teamworkScore = 0, innovationScore = 0 \<rparr>,
       projectMetrics = \<lparr> projectProgress = 0, projectProfit = 0, clientSatisfaction = 0,
                          deadlineAdherence = 0 \<rparr>,
       aiCalculations = \<lparr> performanceBonus = 100, projectBonus = 0, qualityBonus = 0,
                          innovationBonus = 0, totalBonus = 0 \<rparr>,
       manualAdjustments = \<lparr> adjustmentAmount = 0 \<rparr>,
       finalAmount = 1000 \<rparr>"

section \<open>The \<open>Project\<close> document (Mongoose)\<close>

text \<open>
  The paths the \<open>pre('save')\<close> hook reads or writes. A Mongoose array path is never
  undefined, so \<open>this.milestones &&\<close> holds and the guard is the one on the length.
  The hook divides the two counts first and multiplies the quotient by 100 afterwards,
  both in double precision; \<open>Math.round\<close> then yields the integer it stores.
\<close>

record milestone =
  milestone_name :: string
  isCompleted :: bool

record progress_doc =
  planned :: number
  actual :: number

record project_doc =
  milestones :: "milestone list"
  progress :: progress_doc

definition project_pre_save :: "project_doc \<Rightarrow> project_doc" where
  "project_pre_save this =
     (if length (milestones this) > 0
      then (let completedMilestones = length (filter isCompleted (milestones this))
            in this\<lparr> progress := (progress this)\<lparr> actual :=
                 of_int (Math_round
                   (js_times
                      (js_divide (of_nat completedMilestones) (of_nat (length (milestones this))))
                      100)) \<rparr> \<rparr>)
      else this)"

text \<open>A project with 40 milestones, 23 of them completed.\<close>

definition project_23_of_40 :: project_doc where
  "project_23_of_40 =
     \<lparr> milestones =
         replicate 23 \<lparr> milestone_name = ''delivered'', isCompleted = True \<rparr> @
         replicate 17 \<lparr> milestone_name = ''open'', isCompleted = False \<rparr>,
       progress = \<lparr> planned = 0, actual = 0 \<rparr> \<rparr>"

section \<open>Team recommendation (\<open>routes/ai.js\<close>)\<close>



record user_doc =
  user_id :: string
  department :: string
  position :: string








text \<open>
  \<open>xs.sort((a, b) => key(b) - key(a))\<close>: \<open>Array.prototype.sort\<close> is stable, so this is
  the stable sort by descending key; elements with equal keys keep their order.
\<close>

definition sort_descending :: "('a \<Rightarrow> number) \<Rightarrow> 'a list \<Rightarrow> 'a list" where
  "sort_descending key xs = sort_key (\<lambda>x. - key x) xs"















section \<open>Properties of double-precision arithmetic\<close>

text \<open>\<open>binade\<close> is the exponent it is meant to be, and the only one.\<close>

lemma binade_bounds:
  assumes "x \<noteq> 0"
  shows "2 powi binade x \<le> \<bar>x\<bar>" and "\<bar>x\<bar> < 2 powi (binade x + 1)"
proof -
  have both: "2 powi binade x \<le> \<bar>x\<bar> \<and> \<bar>x\<bar> < 2 powi (binade x + 1)"
  proof (cases "1 \<le> \<bar>x\<bar>")
    case True
    define n where "n = \<lfloor>\<bar>x\<bar>\<rfloor>"
    have n: "1 \<le> n" "of_int n \<le> \<bar>x\<bar>" "\<bar>x\<bar> < of_int n + 1"
      using True floor_correct [of "\<bar>x\<bar>"] by (simp_all add: n_def le_floor_iff)
    have len: "1 \<le> bitlen n"
      using n(1) bitlen_eq_zero_iff [of n] bitlen_nonneg [of n] by linarith
    from bitlen_bounds [of n] n(1)
    have bits: "2 ^ nat (bitlen n - 1) \<le> n" "n < 2 ^ nat (bitlen n)"
      by simp_all
    have e: "binade x = bitlen n - 1"
      using True by (simp add: binade_def n_def)
    have "(2::rat) powi (bitlen n - 1) = of_int (2 ^ nat (bitlen n - 1))"
      using len by (simp add: power_int_def)
    also have "\<dots> \<le> of_int n"
      using bits(1) by (simp only: of_int_le_iff)
    finally have lower: "2 powi (bitlen n - 1) \<le> \<bar>x\<bar>"
      using n(2) by simp
    have "n + 1 \<le> 2 ^ nat (bitlen n)"
      using bits(2) by simp
    then have "(of_int (n + 1) :: rat) \<le> of_int (2 ^ nat (bitlen n))"
      by (simp only: of_int_le_iff)
    also have "\<dots> = 2 powi (bitlen n - 1 + 1)"
      using len by (simp add: power_int_def)
    finally have upper: "\<bar>x\<bar> < 2 powi (bitlen n - 1 + 1)"
      using n(3) by simp
    show ?thesis
      using lower upper e by simp
  next
    case False
    define y where "y = 1 / \<bar>x\<bar>"
    define m where "m = \<lceil>y\<rceil> - 1"
    have x: "0 < \<bar>x\<bar>" "\<bar>x\<bar> < 1"
      using assms False by simp_all
    have y: "1 < y"
      using x by (simp add: y_def)
    have m: "of_int m < y" "y \<le> of_int m + 1"
      using ceiling_correct [of y] by (simp_all add: m_def)
    have m1: "1 \<le> m"
      using y by (simp add: m_def less_ceiling_iff)
    have len: "1 \<le> bitlen m"
      using m1 bitlen_eq_zero_iff [of m] bitlen_nonneg [of m] by linarith
    from bitlen_bounds [of m] m1
    have bits: "2 ^ nat (bitlen m - 1) \<le> m" "m < 2 ^ nat (bitlen m)"
      by simp_all
    have e: "binade x = - bitlen m"
      using False by (simp add: binade_def m_def y_def)
    have "m + 1 \<le> 2 ^ nat (bitlen m)"
      using bits(2) by simp
    then have "(of_int (m + 1) :: rat) \<le> of_int (2 ^ nat (bitlen m))"
      by (simp only: of_int_le_iff)
    then have "y \<le> 2 ^ nat (bitlen m)"
      using m(2) by simp
    then have "1 / \<bar>x\<bar> \<le> 2 ^ nat (bitlen m)"
      by (simp add: y_def)
    then have "1 / 2 ^ nat (bitlen m) \<le> \<bar>x\<bar>"
      using x(1) by (simp add: field_simps)
    moreover have "(2::rat) powi (- bitlen m) = 1 / 2 ^ nat (bitlen m)"
      using len by (simp add: power_int_def field_simps)
    ultimately have lower: "2 powi (- bitlen m) \<le> \<bar>x\<bar>"
      by simp
    have "(2::rat) ^ nat (bitlen m - 1) = of_int (2 ^ nat (bitlen m - 1))"
      by simp
    also have "\<dots> \<le> of_int m"
      using bits(1) by (simp only: of_int_le_iff)
    also have "\<dots> < y"
      by (rule m(1))
    finally have "2 ^ nat (bitlen m - 1) < y" .
    then have "2 ^ nat (bitlen m - 1) < 1 / \<bar>x\<bar>"
      by (simp add: y_def)
    then have "\<bar>x\<bar> < 1 / 2 ^ nat (bitlen m - 1)"
      using x(1) by (simp add: field_simps)
    moreover have "(2::rat) powi (- bitlen m + 1) = 1 / 2 ^ nat (bitlen m - 1)"
    proof -
      have "- bitlen m + 1 = - (bitlen m - 1)" by simp
      then have "(2::rat) powi (- bitlen m + 1) = inverse (2 powi (bitlen m - 1))"
        by (simp only: power_int_minus)
      also have "\<dots> = 1 / 2 ^ nat (bitlen m - 1)"
        using len by (simp add: power_int_def field_simps)
      finally show ?thesis .
    qed
    ultimately have upper: "\<bar>x\<bar> < 2 powi (- bitlen m + 1)"
      by simp
    show ?thesis
      using lower upper e by simp
  qed
  from both show "2 powi binade x \<le> \<bar>x\<bar>" and "\<bar>x\<bar> < 2 powi (binade x + 1)"
    by simp_all
qed


lemma binade_eqI:
  assumes "2 powi e \<le> \<bar>x\<bar>" and "\<bar>x\<bar> < 2 powi (e + 1)"
  shows "binade x = e"
proof -
  have "\<not> (2::rat) powi e \<le> 0"
    by (simp add: not_le)
  then have nz: "x \<noteq> 0"
    using assms(1) by auto
  have below: "(2::rat) powi e < 2 powi (binade x + 1)"
    using assms(1) binade_bounds(2) [OF nz] by simp
  have above: "(2::rat) powi binade x < 2 powi (e + 1)"
    using assms(2) binade_bounds(1) [OF nz] by simp
  have "e < binade x + 1"
  proof (rule ccontr)
    assume "\<not> e < binade x + 1"
    then have "(2::rat) powi (binade x + 1) \<le> 2 powi e"
      by (intro power_int_increasing) simp_all
    with below show False
      by simp
  qed
  moreover have "binade x < e + 1"
  proof (rule ccontr)
    assume "\<not> binade x < e + 1"
    then have "(2::rat) powi (e + 1) \<le> 2 powi binade x"
      by (intro power_int_increasing) simp_all
    with above show False
      by simp
  qed
  ultimately show ?thesis
    by simp
qed

lemma round_ties_even_error:
  "\<bar>of_int (round_ties_even r) - r\<bar> \<le> 1 / 2"
proof -
  have "of_int \<lfloor>r\<rfloor> \<le> r" "r < of_int \<lfloor>r\<rfloor> + 1"
    using floor_correct [of r] by simp_all
  then show ?thesis
    by (auto simp: round_ties_even_def Let_def abs_le_iff)
qed

lemma round_ties_even_eqI:
  assumes "\<bar>r - of_int n\<bar> < 1 / 2"
  shows "round_ties_even r = n"
proof -
  have r: "of_int n - 1 / 2 < r" "r < of_int n + 1 / 2"
    using assms by linarith+
  show ?thesis
  proof (cases "of_int n \<le> r")
    case True
    then have "\<lfloor>r\<rfloor> = n"
      using r(2) by (intro floor_unique) simp_all
    then show ?thesis
      using r(2) by (simp add: round_ties_even_def Let_def)
  next
    case False
    then have "\<lfloor>r\<rfloor> = n - 1"
      using r(1) by (intro floor_unique) simp_all
    then show ?thesis
      using r(1) by (simp add: round_ties_even_def Let_def)
  qed
qed

lemma binary64_eqI:
  assumes "2 powi e \<le> \<bar>x\<bar>" and "\<bar>x\<bar> < 2 powi (e + 1)"
    and "\<bar>x / 2 powi (e - 52) - of_int n\<bar> < 1 / 2"
  shows "binary64 x = of_int n * 2 powi (e - 52)"
proof -
  have "\<not> (2::rat) powi e \<le> 0"
    by (simp add: not_le)
  then have "x \<noteq> 0"
    using assms(1) by auto
  then show ?thesis
    using binade_eqI [OF assms(1,2)] round_ties_even_eqI [OF assms(3)]
    by (simp add: binary64_def Let_def)
qed

text \<open>A double differs from the exact result by at most half a unit in the last place.\<close>

lemma binary64_error:
  "\<bar>binary64 x - x\<bar> \<le> 2 powi (binade x - 53)"
proof (cases "x = 0")
  case True
  then show ?thesis by (simp add: binary64_def)
next
  case False
  let ?ulp = "(2::rat) powi (binade x - 52)"
  have pos: "0 < ?ulp"
    by simp
  have "binary64 x - x = (of_int (round_ties_even (x / ?ulp)) - x / ?ulp) * ?ulp"
    using False by (simp add: binary64_def Let_def field_simps)
  then have "\<bar>binary64 x - x\<bar> = \<bar>of_int (round_ties_even (x / ?ulp)) - x / ?ulp\<bar> * ?ulp"
    using pos by (simp add: abs_mult)
  also have "\<dots> \<le> (1 / 2) * ?ulp"
    using round_ties_even_error [of "x / ?ulp"] pos by (intro mult_right_mono) simp_all
  also have "\<dots> = 2 powi (binade x - 53)"
  proof -
    have "(2::rat) powi (binade x - 53 + 1) = 2 powi (binade x - 53) * 2"
      by (rule power_int_add_1) simp
    then show ?thesis by simp
  qed
  finally show ?thesis .
qed

lemma round_ties_even_of_int [simp]:
  "round_ties_even (of_int j) = j"
  by (rule round_ties_even_eqI) simp

lemma round_ties_even_nearest:
  "\<bar>of_int (round_ties_even r) - r\<bar> \<le> \<bar>of_int j - r\<bar>"
proof (cases "\<bar>r - of_int j\<bar> < 1 / 2")
  case True
  then show ?thesis
    by (simp add: round_ties_even_eqI)
next
  case False
  then show ?thesis
    using round_ties_even_error [of r] by linarith
qed

text \<open>A double of magnitude at least \<open>2\<^sup>e\<close> is a whole multiple of \<open>2\<^sup>e\<^sup>-\<^sup>5\<^sup>2\<close>.\<close>

lemma representable_multiple:
  assumes "representable y" and "2 powi e \<le> \<bar>y\<bar>"
  shows "\<exists>j. y = of_int j * 2 powi (e - 52)"
proof -
  from assms(1) obtain m k where m: "\<bar>m\<bar> < 2 ^ 53" and y: "y = of_int m * 2 powi k"
    unfolding representable_def by blast
  have "e - 52 \<le> k"
  proof (rule ccontr)
    assume "\<not> e - 52 \<le> k"
    then have "k \<le> e - 53"
      by simp
    then have "(2::rat) powi k \<le> 2 powi (e - 53)"
      by (intro power_int_increasing) simp_all
    moreover have "\<bar>of_int m :: rat\<bar> < 2 ^ 53"
      using m by (metis of_int_abs of_int_less_numeral_power_cancel_iff)
    ultimately have "\<bar>of_int m :: rat\<bar> * 2 powi k < 2 ^ 53 * 2 powi (e - 53)"
      by (intro mult_less_le_imp_less) simp_all
    also have "\<dots> = 2 powi e"
    proof -
      have "(2::rat) ^ 53 * 2 powi (e - 53) = 2 powi 53 * 2 powi (e - 53)"
        by simp
      also have "\<dots> = 2 powi (53 + (e - 53))"
        by (rule power_int_add [symmetric]) simp
      finally show ?thesis by simp
    qed
    finally have "\<bar>y\<bar> < 2 powi e"
      by (simp add: y abs_mult)
    with assms(2) show False
      by simp
  qed
  then obtain d where d: "k = (e - 52) + int d"
    by (metis nonneg_int_cases diff_ge_0_iff_ge add_diff_cancel_left' diff_add_cancel add.commute)
  have "(2::rat) powi k = 2 powi (e - 52) * 2 powi (int d)"
    unfolding d by (rule power_int_add) simp
  then have "y = of_int (m * 2 ^ d) * 2 powi (e - 52)"
    by (simp add: y)
  then show ?thesis
    by blast
qed

lemma binary64_fixes_doubles:
  assumes "representable x"
  shows "binary64 x = x"
proof (cases "x = 0")
  case True
  then show ?thesis by (simp add: binary64_def)
next
  case False
  from representable_multiple [OF assms binade_bounds(1) [OF False]]
  obtain j where j: "x = of_int j * 2 powi (binade x - 52)"
    by blast
  have "x / 2 powi (binade x - 52) = of_int j"
    by (subst j) simp
  then show ?thesis
    using False j by (simp add: binary64_def Let_def)
qed


lemma scaled_significand:
  assumes "x \<noteq> 0"
  shows "2 ^ 52 \<le> \<bar>x / 2 powi (binade x - 52)\<bar>" and "\<bar>x / 2 powi (binade x - 52)\<bar> < 2 ^ 53"
proof -
  let ?u = "(2::rat) powi (binade x - 52)"
  have u: "0 < ?u"
    by simp
  have split: "\<bar>x / ?u\<bar> = \<bar>x\<bar> / ?u"
    using u by (simp add: abs_divide)
  have low: "(2::rat) ^ 52 * ?u = 2 powi binade x"
  proof -
    have "(2::rat) powi (52 + (binade x - 52)) = 2 powi 52 * ?u"
      by (rule power_int_add) simp
    then show ?thesis by simp
  qed
  have high: "(2::rat) ^ 53 * ?u = 2 powi (binade x + 1)"
  proof -
    have "(2::rat) powi (53 + (binade x - 52)) = 2 powi 53 * ?u"
      by (rule power_int_add) simp
    then show ?thesis by (simp add: add.commute)
  qed
  show "2 ^ 52 \<le> \<bar>x / ?u\<bar>"
    unfolding split using binade_bounds(1) [OF assms] u low by (simp add: le_divide_eq)
  show "\<bar>x / ?u\<bar> < 2 ^ 53"
    unfolding split using binade_bounds(2) [OF assms] u high by (simp add: divide_less_eq)
qed

lemma binary64_representable:
  "representable (binary64 x)"
proof (cases "x = 0")
  case True
  have "\<bar>0::int\<bar> < 2 ^ 53 \<and> (0::rat) = of_int 0 * 2 powi 0"
    by simp
  then show ?thesis
    unfolding representable_def using True by (auto simp: binary64_def)
next
  case False
  let ?u = "(2::rat) powi (binade x - 52)"
  let ?t = "x / ?u"
  let ?r = "round_ties_even ?t"
  have shape: "binary64 x = of_int ?r * ?u"
    using False by (simp add: binary64_def Let_def)
  have "\<bar>of_int ?r :: rat\<bar> \<le> \<bar>?t\<bar> + 1 / 2"
    using round_ties_even_error [of ?t] by linarith
  then have "\<bar>of_int ?r :: rat\<bar> < 2 ^ 53 + 1"
    using scaled_significand(2) [OF False] by linarith
  then have "(of_int \<bar>?r\<bar> :: rat) < of_int (2 ^ 53 + 1)"
    by simp
  then have bound: "\<bar>?r\<bar> \<le> 2 ^ 53"
    unfolding of_int_less_iff by simp
  show ?thesis
  proof (cases "\<bar>?r\<bar> < 2 ^ 53")
    case True
    then show ?thesis
      unfolding representable_def shape by blast
  next
    case False
    then have top: "\<bar>?r\<bar> = 2 ^ 53"
      using bound by simp
    define s :: int where "s = sgn ?r"
    have s: "\<bar>s\<bar> < 2 ^ 53" "?r = s * 2 ^ 53"
      using top by (auto simp: s_def sgn_if abs_if split: if_splits)
    have "(2::rat) powi (53 + (binade x - 52)) = 2 powi 53 * ?u"
      by (rule power_int_add) simp
    then have "(2::rat) ^ 53 * ?u = 2 powi (binade x + 1)"
      by (simp add: add.commute)
    then have "binary64 x = of_int s * 2 powi (binade x + 1)"
      unfolding shape by (subst s(2)) (simp add: mult.assoc)
    then show ?thesis
      unfolding representable_def using s(1) by blast
  qed
qed

text \<open>No double is nearer to \<open>x\<close> than \<open>binary64 x\<close>.\<close>

lemma binary64_nearest:
  assumes "representable y"
  shows "\<bar>binary64 x - x\<bar> \<le> \<bar>y - x\<bar>"
proof (cases "x = 0")
  case True
  then show ?thesis by (simp add: binary64_def)
next
  case False
  let ?u = "(2::rat) powi (binade x - 52)"
  let ?t = "x / ?u"
  let ?r = "round_ties_even ?t"
  have u: "0 < ?u"
    by simp
  have shape: "binary64 x = of_int ?r * ?u"
    using False by (simp add: binary64_def Let_def)
  have gap: "\<bar>binary64 x - x\<bar> \<le> \<bar>of_int j * ?u - x\<bar>" for j
  proof -
    have "binary64 x - x = (of_int ?r - ?t) * ?u"
      unfolding shape using u by (simp add: field_simps)
    then have "\<bar>binary64 x - x\<bar> = \<bar>of_int ?r - ?t\<bar> * ?u"
      using u by (simp add: abs_mult)
    also have "\<dots> \<le> \<bar>of_int j - ?t\<bar> * ?u"
      using round_ties_even_nearest [of ?t j] u by (intro mult_right_mono) simp_all
    also have "\<dots> = \<bar>(of_int j - ?t) * ?u\<bar>"
      using u by (simp add: abs_mult)
    also have "(of_int j - ?t) * ?u = of_int j * ?u - x"
      using u by (simp add: field_simps)
    finally show ?thesis .
  qed
  show ?thesis
  proof (cases "2 powi binade x \<le> \<bar>y\<bar>")
    case True
    from representable_multiple [OF assms True] obtain j where "y = of_int j * ?u"
      by blast
    then show ?thesis
      using gap [of j] by simp
  next
    case False
    then have y: "\<bar>y\<bar> < 2 powi binade x"
      by simp
    have edge: "(2::rat) powi (52 + (binade x - 52)) = 2 powi 52 * ?u"
      by (rule power_int_add) simp
    have x: "2 powi binade x \<le> \<bar>x\<bar>"
      by (rule binade_bounds(1) [OF \<open>x \<noteq> 0\<close>])
    show ?thesis
    proof (cases "0 < x")
      case True
      have "\<bar>binary64 x - x\<bar> \<le> \<bar>of_int (2 ^ 52) * ?u - x\<bar>"
        by (rule gap)
      also have "of_int (2 ^ 52) * ?u = 2 powi binade x"
        using edge by simp
      finally show ?thesis
        using x y True by linarith
    next
      case False
      then have neg: "x < 0"
        using \<open>x \<noteq> 0\<close> by simp
      have "\<bar>binary64 x - x\<bar> \<le> \<bar>of_int (- (2 ^ 52)) * ?u - x\<bar>"
        by (rule gap)
      also have "of_int (- (2 ^ 52)) * ?u = - (2 powi binade x)"
        using edge by simp
      finally show ?thesis
        using x y neg by linarith
    qed
  qed
qed

lemma binary64_relative_error:
  "\<bar>binary64 x - x\<bar> \<le> \<bar>x\<bar> / 2 ^ 53"
proof (cases "x = 0")
  case True
  then show ?thesis by (simp add: binary64_def)
next
  case False
  have "(2::rat) powi (53 + (binade x - 53)) = 2 powi 53 * 2 powi (binade x - 53)"
    by (rule power_int_add) simp
  then have "(2::rat) powi (binade x - 53) = 2 powi binade x / 2 ^ 53"
    by simp
  also have "\<dots> \<le> \<bar>x\<bar> / 2 ^ 53"
    using binade_bounds(1) [OF False] by (simp add: divide_right_mono)
  finally show ?thesis
    using binary64_error [of x] by linarith
qed

lemma is_double_iff:
  "is_double x \<longleftrightarrow> representable x"
  unfolding is_double_def
  using binary64_fixes_doubles [of x] binary64_representable [of x] by auto

section \<open>Properties of the reward calculation\<close>

lemma create_rewards_projects [simp]:
  "projects (snd (create_rewards rejects i c a ms d)) = projects d"
  by (induction ms arbitrary: i d) (simp_all add: rewards_create_def Let_def)

lemma create_rewards_project_members [simp]:
  "project_members (snd (create_rewards rejects i c a ms d)) = project_members d"
  by (induction ms arbitrary: i d) (simp_all add: rewards_create_def Let_def)

lemma create_rewards_reward_calculations [simp]:
  "reward_calculations (snd (create_rewards rejects i c a ms d)) = reward_calculations d"
  by (induction ms arbitrary: i d) (simp_all add: rewards_create_def Let_def)

text \<open>
  While no creation is rejected the loop appends one row per member, in the members'
  order, each with the calculation's id and the same amount.
\<close>

lemma create_rewards_finishes:
  "\<forall>j < length ms. \<not> rejects (i + j) \<Longrightarrow>
   \<exists>rows. create_rewards rejects i c a ms d = (True, d\<lparr>rewards := rewards d @ rows\<rparr>) \<and>
          map rewards_user_id rows = map project_members_user_id ms \<and>
          (\<forall>r \<in> set rows. rewards_amount r = a \<and> rewards_calculation_id r = c)"
proof (induction ms arbitrary: i d)
  case Nil
  show ?case by simp
next
  case (Cons m ms)
  let ?row = "fst (rewards_create d c (project_members_user_id m) a)"
  let ?d = "snd (rewards_create d c (project_members_user_id m) a)"
  have here: "\<not> rejects i"
    using Cons.prems by (metis add.right_neutral length_greater_0_conv list.discI)
  have later: "\<forall>j < length ms. \<not> rejects (Suc i + j)"
    using Cons.prems by auto
  from Cons.IH [OF later, of ?d] obtain rows where
    run: "create_rewards rejects (Suc i) c a ms ?d = (True, ?d\<lparr>rewards := rewards ?d @ rows\<rparr>)"
    and users: "map rewards_user_id rows = map project_members_user_id ms"
    and each: "\<forall>r \<in> set rows. rewards_amount r = a \<and> rewards_calculation_id r = c"
    by blast
  have step: "?d = d\<lparr>rewards := rewards d @ [?row]\<rparr>"
    by (simp add: rewards_create_def Let_def)
  have row: "rewards_user_id ?row = project_members_user_id m"
    "rewards_amount ?row = a" "rewards_calculation_id ?row = c"
    by (simp_all add: rewards_create_def Let_def)
  have "create_rewards rejects i c a (m # ms) d = (True, d\<lparr>rewards := rewards d @ (?row # rows)\<rparr>)"
    using here run step by simp
  moreover have "map rewards_user_id (?row # rows) = map project_members_user_id (m # ms)"
    using users row by simp
  moreover have "\<forall>r \<in> set (?row # rows). rewards_amount r = a \<and> rewards_calculation_id r = c"
    using each row by simp
  ultimately show ?case by blast
qed

text \<open>
  When the creation at position \<open>k\<close> is the first one rejected, the loop stops there with
  the store it had after the first \<open>k\<close> members.
\<close>

lemma create_rewards_stops:
  "k < length ms \<Longrightarrow> rejects (i + k) \<Longrightarrow> \<forall>j < k. \<not> rejects (i + j) \<Longrightarrow>
   create_rewards rejects i c a ms d =
     (False, snd (create_rewards rejects i c a (take k ms) d))"
proof (induction ms arbitrary: i k d)
  case Nil
  then show ?case by simp
next
  case (Cons m ms)
  show ?case
  proof (cases k)
    case 0
    with Cons.prems show ?thesis by simp
  next
    case (Suc k')
    have here: "\<not> rejects i"
      using Cons.prems(3) Suc by (metis add.right_neutral zero_less_Suc)
    have "k' < length ms" "rejects (Suc i + k')" "\<forall>j < k'. \<not> rejects (Suc i + j)"
      using Cons.prems Suc by auto
    from Cons.IH [OF this] here Suc show ?thesis by simp
  qed
qed


lemma findByPk_found:
  "pk \<in> projects_id ` set (projects d) \<Longrightarrow>
   \<exists>p. findByPk d pk = Some (p, filter (\<lambda>m. project_members_project_id m = pk) (project_members d))"
  by (cases "find (\<lambda>p. projects_id p = pk) (projects d)")
     (auto simp: findByPk_def find_None_iff)

lemma findByPk_missing:
  "pk \<notin> projects_id ` set (projects d) \<Longrightarrow> findByPk d pk = None"
  by (cases "find (\<lambda>p. projects_id p = pk) (projects d)")
     (auto simp: findByPk_def find_Some_iff)

lemma calculateReward_found:
  assumes "\<not> findByPk_rejects f" and "\<not> calculation_create_rejects f"
    and "project_id data \<in> projects_id ` set (projects d)"
  shows "calculateReward f d data =
     (let members = filter (\<lambda>m. project_members_project_id m = project_id data) (project_members d);
          perMember = js_divide (total_reward_pool data) (of_nat (or_one (length members)));
          calculation = fst (reward_calculations_create d (project_id data) (reward_policy_id data)
                         (total_reward_pool data) PRELIMINARY);
          d1 = snd (reward_calculations_create d (project_id data) (reward_policy_id data)
                         (total_reward_pool data) PRELIMINARY);
          run = create_rewards (reward_create_rejects f) 0
                         (reward_calculations_id calculation) perMember members d1
      in if fst run
         then (Resolved (Calculation_result (reward_calculations_id calculation) perMember), snd run)
         else (Rejected (error_message f), snd run))"
proof -
  from findByPk_found [OF assms(3)] obtain p where
    "findByPk d (project_id data) =
       Some (p, filter (\<lambda>m. project_members_project_id m = project_id data) (project_members d))"
    by blast
  then show ?thesis
    using assms(1,2) by (simp add: calculateReward_def Let_def split_beta)
qed

text \<open>
  C10. When the lookup resolves and no project has the requested \<open>project_id\<close>, the
  service returns the object \<open>{ error: 'Project not found' }\<close> and the store is the
  one it started from: nothing was written. The controller answers with that object
  under status 200.
\<close>

theorem calculateReward_project_not_found:
  assumes "\<not> findByPk_rejects f"
    and "project_id data \<notin> projects_id ` set (projects d)"
  shows "calculateReward f d data = (Resolved (Error_object ''Project not found''), d) \<and>
         calculateReward_controller f d data =
           (\<lparr> status_code = 200, body = Json_result (Error_object ''Project not found'') \<rparr>, d)"
  using assms findByPk_missing [OF assms(2)]
  by (simp add: calculateReward_def calculateReward_controller_def)


lemma created_rewards_append [simp]:
  "created_rewards d (d'\<lparr>rewards := rewards d @ rows\<rparr>) = rows"
  by (simp add: created_rewards_def)

text \<open>
  C9. For an existing project without members the divisor \<open>members.length || 1\<close> is 1
  and \<open>perMember\<close> is the whole pool (the pool is a \<open>Number\<close> of the request body,
  hence a double, and dividing a double by 1 returns it). One \<open>reward_calculations\<close>
  row with status \<open>PRELIMINARY\<close> is appended and the \<open>rewards\<close> table is untouched,
  so the created shares sum to 0.
\<close>

theorem calculateReward_no_members:
  assumes "\<not> findByPk_rejects f" and "\<not> calculation_create_rejects f"
    and "project_id data \<in> projects_id ` set (projects d)"
    and "filter (\<lambda>m. project_members_project_id m = project_id data) (project_members d) = []"
    and "is_double (total_reward_pool data)"
  shows "or_one (length (filter (\<lambda>m. project_members_project_id m = project_id data)
                    (project_members d))) = 1 \<and>
         fst (calculateReward f d data) =
           Resolved (Calculation_result
             (autoIncrement (map reward_calculations_id (reward_calculations d)))
             (total_reward_pool data)) \<and>
         reward_calculations (snd (calculateReward f d data)) =
           reward_calculations d @
             [\<lparr> reward_calculations_id =
                   autoIncrement (map reward_calculations_id (reward_calculations d)),
                 reward_calculations_project_id = project_id data,
                 reward_calculations_reward_policy_id = reward_policy_id data,
                 reward_calculations_total_reward_pool = total_reward_pool data,
                 reward_calculations_status = PRELIMINARY \<rparr>] \<and>
         rewards (snd (calculateReward f d data)) = rewards d \<and>
         created_rewards d (snd (calculateReward f d data)) = [] \<and>
         sum_list (map rewards_amount (created_rewards d (snd (calculateReward f d data)))) = 0"
proof -
  have "js_divide (total_reward_pool data) 1 = total_reward_pool data"
    using assms(5) by (simp add: js_divide_def is_double_def)
  then show ?thesis
    using assms(4)
    by (simp add: calculateReward_found [OF assms(1-3)] Let_def or_one_def
          reward_calculations_create_def created_rewards_def)
qed


text \<open>
  C5. When the creation of the reward row at position \<open>k\<close> (counted from 0, so \<open>k\<close> rows
  precede it) is the first write rejected, the call rejects, yet the store keeps the
  new \<open>reward_calculations\<close> row and the \<open>k\<close> reward rows of the first \<open>k\<close> members:
  fewer rows than members, and nothing is rolled back.
\<close>

theorem calculateReward_partial_failure:
  assumes "\<not> findByPk_rejects f" and "\<not> calculation_create_rejects f"
    and "project_id data \<in> projects_id ` set (projects d)"
    and "members = filter (\<lambda>m. project_members_project_id m = project_id data) (project_members d)"
    and "k < length members"
    and "reward_create_rejects f k"
    and "\<forall>j < k. \<not> reward_create_rejects f j"
  shows "fst (calculateReward f d data) = Rejected (error_message f) \<and>
         reward_calculations (snd (calculateReward f d data)) =
           reward_calculations d @
             [\<lparr> reward_calculations_id =
                   autoIncrement (map reward_calculations_id (reward_calculations d)),
                 reward_calculations_project_id = project_id data,
                 reward_calculations_reward_policy_id = reward_policy_id data,
                 reward_calculations_total_reward_pool = total_reward_pool data,
                 reward_calculations_status = PRELIMINARY \<rparr>] \<and>
         take (length (rewards d)) (rewards (snd (calculateReward f d data))) = rewards d \<and>
         map rewards_user_id (created_rewards d (snd (calculateReward f d data))) =
           map project_members_user_id (take k members) \<and>
         length (created_rewards d (snd (calculateReward f d data))) = k \<and>
         length (created_rewards d (snd (calculateReward f d data))) < length members"
proof -
  let ?per = "js_divide (total_reward_pool data) (of_nat (or_one (length members)))"
  let ?made = "reward_calculations_create d (project_id data) (reward_policy_id data)
                 (total_reward_pool data) PRELIMINARY"
  let ?cid = "autoIncrement (map reward_calculations_id (reward_calculations d))"
  have cid: "reward_calculations_id (fst ?made) = ?cid"
    by (simp add: reward_calculations_create_def Let_def)
  have old: "rewards (snd ?made) = rewards d"
    by (simp add: reward_calculations_create_def Let_def)
  have calcs: "reward_calculations (snd ?made) =
      reward_calculations d @
             [\<lparr> reward_calculations_id = ?cid,
                 reward_calculations_project_id = project_id data,
                 reward_calculations_reward_policy_id = reward_policy_id data,
                 reward_calculations_total_reward_pool = total_reward_pool data,
                 reward_calculations_status = PRELIMINARY \<rparr>]"
    by (simp add: reward_calculations_create_def Let_def)
  have stop: "create_rewards (reward_create_rejects f) 0 ?cid ?per members (snd ?made) =
      (False, snd (create_rewards (reward_create_rejects f) 0 ?cid ?per (take k members) (snd ?made)))"
    using create_rewards_stops [of k members "reward_create_rejects f" 0 ?cid ?per "snd ?made"]
      assms(5-7) by simp
  have "\<forall>j < length (take k members). \<not> reward_create_rejects f (0 + j)"
    using assms(7) by simp
  from create_rewards_finishes [OF this, of ?cid ?per "snd ?made"] obtain rows where
    run: "create_rewards (reward_create_rejects f) 0 ?cid ?per (take k members) (snd ?made) =
            (True, (snd ?made)\<lparr>rewards := rewards (snd ?made) @ rows\<rparr>)"
    and users: "map rewards_user_id rows = map project_members_user_id (take k members)"
    by blast
  have result: "calculateReward f d data =
      (Rejected (error_message f), (snd ?made)\<lparr>rewards := rewards d @ rows\<rparr>)"
    using stop run cid old assms(4)
    by (simp add: calculateReward_found [OF assms(1-3)] Let_def)
  have len: "length rows = k"
    using users assms(5) by (metis length_map length_take min.absorb2 less_imp_le)
  show ?thesis
    using result users len calcs assms(5) by simp
qed

lemma representable_of_int:
  "\<bar>m\<bar> < 2 ^ 53 \<Longrightarrow> representable (of_int m)"
  unfolding representable_def by (intro exI [of _ m] exI [of _ 0]) simp

lemma example_doubles:
  "is_double 900000" "js_divide 900000 3 = 300000"
proof -
  have "representable (of_int 900000)" "representable (of_int 300000)"
    by (rule representable_of_int, simp)+
  then show "is_double 900000" "js_divide 900000 3 = 300000"
    by (simp_all add: is_double_iff js_divide_def binary64_fixes_doubles)
qed

lemma example_members:
  "filter (\<lambda>m. project_members_project_id m = project_id example_request)
      (project_members example_db) = project_members example_db"
  by (simp add: example_db_def example_request_def)


theorem calculateReward_partial_failure_witness:
  "fst (calculateReward second_reward_fault example_db example_request) =
     Rejected ''connection lost'' \<and>
   map reward_calculations_status
     (reward_calculations (snd (calculateReward second_reward_fault example_db example_request))) =
     [PRELIMINARY] \<and>
   map rewards_user_id (created_rewards example_db
      (snd (calculateReward second_reward_fault example_db example_request))) = [11] \<and>
   length (created_rewards example_db
      (snd (calculateReward second_reward_fault example_db example_request))) < 3"
proof -
  have 1: "\<not> findByPk_rejects second_reward_fault"
    "\<not> calculation_create_rejects second_reward_fault"
    by (simp_all add: second_reward_fault_def)
  have 2: "project_id example_request \<in> projects_id ` set (projects example_db)"
    by (simp add: example_db_def example_request_def)
  have 3: "1 < length (project_members example_db)"
    by (simp add: example_db_def)
  have 4: "reward_create_rejects second_reward_fault 1"
    "\<forall>j < 1. \<not> reward_create_rejects second_reward_fault j"
    by (simp_all add: second_reward_fault_def)
  from calculateReward_partial_failure [OF 1 2 example_members [symmetric] 3 4]
  show ?thesis
    by (simp add: example_db_def second_reward_fault_def)
qed

theorem calculateReward_no_members_witness:
  "fst (calculateReward no_faults example_db empty_project_request) =
     Resolved (Calculation_result 1 900000) \<and>
   map reward_calculations_status
     (reward_calculations (snd (calculateReward no_faults example_db empty_project_request))) =
     [PRELIMINARY] \<and>
   rewards (snd (calculateReward no_faults example_db empty_project_request)) = []"
proof -
  have 1: "\<not> findByPk_rejects no_faults" "\<not> calculation_create_rejects no_faults"
    by (simp_all add: no_faults_def)
  have 2: "project_id empty_project_request \<in> projects_id ` set (projects example_db)"
    by (simp add: example_db_def empty_project_request_def)
  have 3: "filter (\<lambda>m. project_members_project_id m = project_id empty_project_request)
      (project_members example_db) = []"
    by (simp add: example_db_def empty_project_request_def)
  have 4: "is_double (total_reward_pool empty_project_request)"
    by (simp add: empty_project_request_def example_doubles)
  from calculateReward_no_members [OF 1 2 3 4]
  show ?thesis
    by (simp add: example_db_def empty_project_request_def autoIncrement_def)
qed

theorem calculateReward_project_not_found_witness:
  "calculateReward no_faults example_db missing_project_request =
     (Resolved (Error_object ''Project not found''), example_db) \<and>
   status_code (fst (calculateReward_controller no_faults example_db missing_project_request)) = 200"
proof -
  have 1: "\<not> findByPk_rejects no_faults"
    by (simp add: no_faults_def)
  have 2: "project_id missing_project_request \<notin> projects_id ` set (projects example_db)"
    by (simp add: example_db_def missing_project_request_def)
  from calculateReward_project_not_found [OF 1 2]
  show ?thesis
    by simp
qed

section \<open>Properties of the \<open>Commission\<close> document\<close>


text \<open>
  C3. Every save stores as \<open>aiCalculations.totalBonus\<close> the sum of the four bonus
  components, which the hook leaves as they are; the value does not depend on the
  \<open>totalBonus\<close> the document held before.
\<close>

theorem commission_pre_save_totalBonus:
  "totalBonus (aiCalculations (commission_pre_save this)) =
     performanceBonus (aiCalculations (commission_pre_save this)) +
     projectBonus (aiCalculations (commission_pre_save this)) +
     qualityBonus (aiCalculations (commission_pre_save this)) +
     innovationBonus (aiCalculations (commission_pre_save this)) \<and>
   totalBonus (aiCalculations (commission_pre_save this)) =
     performanceBonus (aiCalculations this) + projectBonus (aiCalculations this) +
     qualityBonus (aiCalculations this) + innovationBonus (aiCalculations this) \<and>
   totalBonus (aiCalculations (commission_pre_save
       (this\<lparr> aiCalculations := (aiCalculations this)\<lparr> totalBonus := stale \<rparr> \<rparr>))) =
     totalBonus (aiCalculations (commission_pre_save this))"
  by (simp add: commission_pre_save_def Let_def)

text \<open>
  What the hook stores as \<open>finalAmount\<close>: the sum taken with the \<open>totalBonus\<close> from
  before the save. A second save of the unchanged document brings the two in line.
\<close>

lemma commission_pre_save_finalAmount:
  "finalAmount (commission_pre_save this) =
     baseSalary this + totalBonus (aiCalculations this) + adjustmentAmount (manualAdjustments this)"
  by (simp add: commission_pre_save_def Let_def)

lemma commission_pre_save_twice:
  "finalAmount (commission_pre_save (commission_pre_save this)) =
     baseSalary (commission_pre_save (commission_pre_save this)) +
     totalBonus (aiCalculations (commission_pre_save (commission_pre_save this))) +
     adjustmentAmount (manualAdjustments (commission_pre_save (commission_pre_save this)))"
  by (simp add: commission_pre_save_def Let_def)

text \<open>
  C1. The save of \<open>new_commission\<close> stores \<open>finalAmount = 1000\<close> next to
  \<open>totalBonus = 100\<close>, \<open>baseSalary = 1000\<close> and \<open>adjustmentAmount = 0\<close>: the stored
  \<open>finalAmount\<close> is not the sum of the three stored values, which is 1100.
\<close>

theorem commission_pre_save_finalAmount_stale:
  "finalAmount (commission_pre_save new_commission) = 1000 \<and>
   baseSalary (commission_pre_save new_commission) +
     totalBonus (aiCalculations (commission_pre_save new_commission)) +
     adjustmentAmount (manualAdjustments (commission_pre_save new_commission)) = 1100"
  by (simp add: commission_pre_save_def new_commission_def Let_def)

text \<open>
  C4 as stated fails: for the developer commission \<open>new_commission\<close> the virtual
  \<open>totalScore\<close> is 30, the sum under the weights 25/20/20/15/10/10 is 25.
\<close>

theorem totalScore_developer_counterexample:
  "role new_commission = developer \<and>
   totalScore new_commission = 30 \<and>
   kpiScore (performanceMetrics new_commission) * (25 / 100) +
   qualityScore (performanceMetrics new_commission) * (20 / 100) +
   efficiencyScore (performanceMetrics new_commission) * (20 / 100) +
   teamworkScore (performanceMetrics new_commission) * (15 / 100) +
   innovationScore (performanceMetrics new_commission) * (10 / 100) +
   projectProgress (projectMetrics new_commission) * (10 / 100) = 25"
  by (simp add: totalScore_def new_commission_def Let_def)

text \<open>
  C4, amended. For every commission, whatever its role, \<open>totalScore\<close> is the weighted
  sum of the five performance scores with the weights KPI 30%, Quality 20%,
  Efficiency 20%, Teamwork 15%, Innovation 15%; neither the role nor the project
  metrics (project progress among them) enter it.
\<close>

theorem totalScore_weights:
  "totalScore this =
     (30 * kpiScore (performanceMetrics this) +
      20 * qualityScore (performanceMetrics this) +
      20 * efficiencyScore (performanceMetrics this) +
      15 * teamworkScore (performanceMetrics this) +
      15 * innovationScore (performanceMetrics this)) / 100 \<and>
   totalScore (this\<lparr> role := r, projectMetrics := p \<rparr>) = totalScore this"
  by (simp add: totalScore_def Let_def field_simps)

section \<open>Properties of the \<open>Project\<close> document\<close>

text \<open>
  How far the double product \<open>(c / n) * 100\<close> can be from the exact percentage: both
  roundings together move it by less than \<open>2\<^sup>-\<^sup>4\<^sup>4\<close>.
\<close>

lemma percentage_error:
  fixes c n :: nat
  assumes "0 < n" and "c \<le> n"
  shows "\<bar>js_times (js_divide (of_nat c) (of_nat n)) 100 - 100 * of_nat c / of_nat n\<bar>
           \<le> 300 / 2 ^ 53"
proof -
  define r :: rat where "r = of_nat c / of_nat n"
  define q where "q = binary64 r"
  define p where "p = binary64 (q * 100)"
  have r: "0 \<le> r" "r \<le> 1"
    using assms by (simp_all add: r_def)
  have "\<bar>q - r\<bar> \<le> \<bar>r\<bar> / 2 ^ 53"
    unfolding q_def by (rule binary64_relative_error)
  then have q: "\<bar>q - r\<bar> \<le> 1 / 2 ^ 53"
    using r by (simp add: abs_if field_simps split: if_splits)
  have "(1::rat) / 2 ^ 53 \<le> 1"
    by simp
  then have q2: "\<bar>q\<bar> \<le> 2"
    using q r by linarith
  have "\<bar>p - q * 100\<bar> \<le> \<bar>q * 100\<bar> / 2 ^ 53"
    unfolding p_def by (rule binary64_relative_error)
  also have "\<dots> \<le> 200 / 2 ^ 53"
    using q2 by (simp add: abs_mult)
  finally have p: "\<bar>p - q * 100\<bar> \<le> 200 / 2 ^ 53" .
  have "p - 100 * r = (p - q * 100) + 100 * (q - r)"
    by simp
  then have "\<bar>p - 100 * r\<bar> \<le> \<bar>p - q * 100\<bar> + \<bar>100 * (q - r)\<bar>"
    by (metis abs_triangle_ineq)
  also have "\<bar>100 * (q - r)\<bar> = 100 * \<bar>q - r\<bar>"
    by (simp only: abs_mult abs_numeral)
  finally have "\<bar>p - 100 * r\<bar> \<le> \<bar>p - q * 100\<bar> + 100 * \<bar>q - r\<bar>" .
  also have "\<dots> \<le> 200 / 2 ^ 53 + 100 * (1 / 2 ^ 53)"
    using p q by (intro add_mono mult_left_mono) simp_all
  finally have "\<bar>p - 100 * r\<bar> \<le> 300 / 2 ^ 53"
    by simp
  then show ?thesis
    by (simp add: p_def q_def r_def js_times_def js_divide_def)
qed


text \<open>
  The integer the hook stores, for up to \<open>2\<^sup>4\<^sup>3\<close> milestones: the exactly rounded
  percentage, unless the percentage lies exactly halfway between two integers; there
  it is the rounded percentage or the integer below it.
\<close>

lemma percentage_rounding:
  fixes c n :: nat
  assumes "0 < n" and "c \<le> n" and "n < 2 ^ 43"
  shows "Math_round (js_times (js_divide (of_nat c) (of_nat n)) 100) =
           round (100 * of_nat c / of_nat n :: rat) \<or>
         (200 * c + n) mod (2 * n) = 0 \<and>
         Math_round (js_times (js_divide (of_nat c) (of_nat n)) 100) =
           round (100 * of_nat c / of_nat n :: rat) - 1"
proof -
  define p where "p = js_times (js_divide (of_nat c) (of_nat n)) 100"
  define x :: rat where "x = 100 * of_nat c / of_nat n"
  define a :: int where "a = 200 * int c + int n"
  define k where "k = a div (2 * int n)"
  define eps :: rat where "eps = 300 / 2 ^ 53"
  define gap :: rat where "gap = 1 / (2 * of_nat n)"
  have n: "(0::rat) < of_nat n" "0 < int n"
    using assms(1) by simp_all
  have close: "\<bar>p - x\<bar> \<le> eps"
    unfolding p_def x_def eps_def by (rule percentage_error [OF assms(1,2)])
  have small: "eps < 1"
    by (simp add: eps_def)
  have "int n < 2 ^ 43"
    using assms(3) by (metis of_nat_less_numeral_power_cancel_iff)
  then have "(of_int (int n) :: rat) < of_int (2 ^ 43)"
    by (simp only: of_int_less_iff)
  then have "(of_nat n :: rat) < 2 ^ 43"
    by simp
  then have "(of_nat n :: rat) * 600 < 2 ^ 53"
    by simp
  then have step: "eps < gap"
    using n by (simp add: eps_def gap_def field_simps)
  have shifted: "x + 1 / 2 = of_int a / of_int (2 * int n)"
    using n by (simp add: x_def a_def field_simps)
  have k: "round x = k"
    unfolding round_def shifted k_def by (rule floor_divide_of_int_eq)
  have split: "of_int a = of_int k * (2 * of_nat n :: rat) + of_int (a mod (2 * int n))"
  proof -
    have "a = k * (2 * int n) + a mod (2 * int n)"
      unfolding k_def by (rule div_mult_mod_eq [symmetric])
    then have "(of_int a :: rat) = of_int (k * (2 * int n) + a mod (2 * int n))"
      by simp
    then show ?thesis
      by simp
  qed
  have frac: "x + 1 / 2 = of_int k + of_int (a mod (2 * int n)) * gap"
    unfolding shifted split gap_def using n by (simp add: field_simps)
  have rem: "0 \<le> a mod (2 * int n)" "a mod (2 * int n) < 2 * int n"
    using n by simp_all
  show ?thesis
  proof (cases "a mod (2 * int n) = 0")
    case True
    then have "x + 1 / 2 = of_int k"
      using frac by simp
    then have "of_int k - 1 \<le> p + 1 / 2" "p + 1 / 2 < of_int k + 1"
      using close small by linarith+
    then have "of_int (k - 1) \<le> p + 1 / 2" "p + 1 / 2 < of_int k + 1"
      by simp_all
    then have "k - 1 \<le> \<lfloor>p + 1 / 2\<rfloor>" "\<lfloor>p + 1 / 2\<rfloor> < k + 1"
      by (simp_all only: le_floor_iff floor_less_iff of_int_add of_int_1)
    then have "\<lfloor>p + 1 / 2\<rfloor> = k \<or> \<lfloor>p + 1 / 2\<rfloor> = k - 1"
      by linarith
    moreover have "(200 * c + n) mod (2 * n) = 0"
    proof -
      have "int ((200 * c + n) mod (2 * n)) = a mod (2 * int n)"
        by (simp add: a_def zmod_int)
      then show ?thesis
        using True by simp
    qed
    ultimately show ?thesis
      using k by (auto simp: Math_round_def p_def x_def)
  next
    case False
    then have "1 \<le> a mod (2 * int n)" "a mod (2 * int n) \<le> 2 * int n - 1"
      using rem by simp_all
    then have "(of_int 1 :: rat) \<le> of_int (a mod (2 * int n))"
      "(of_int (a mod (2 * int n)) :: rat) \<le> of_int (2 * int n - 1)"
      by (simp_all only: of_int_le_iff)
    then have between: "(1::rat) \<le> of_int (a mod (2 * int n))"
      "(of_int (a mod (2 * int n)) :: rat) \<le> 2 * of_nat n - 1"
      by simp_all
    have gap: "0 < gap" "2 * of_nat n * gap = 1"
      using n by (simp_all add: gap_def)
    have "1 * gap \<le> of_int (a mod (2 * int n)) * gap"
      using between(1) gap(1) by (intro mult_right_mono) simp_all
    moreover have "of_int (a mod (2 * int n)) * gap \<le> (2 * of_nat n - 1) * gap"
      using between(2) gap(1) by (intro mult_right_mono) simp_all
    moreover have "(2 * of_nat n - 1) * gap = 1 - gap"
      using gap(2) by (simp add: algebra_simps)
    ultimately have "of_int k + gap \<le> x + 1 / 2" "x + 1 / 2 \<le> of_int k + 1 - gap"
      unfolding frac by simp_all
    then have "of_int k \<le> p + 1 / 2" "p + 1 / 2 < of_int k + 1"
      using close step by linarith+
    then have "\<lfloor>p + 1 / 2\<rfloor> = k"
      by (rule floor_unique)
    then show ?thesis
      using k by (simp add: Math_round_def p_def x_def)
  qed
qed

lemma project_pre_save_progress:
  assumes "milestones this \<noteq> []" and "length (milestones this) < 2 ^ 43"
  shows "actual (progress (project_pre_save this)) =
           of_int (round (100 * of_nat (length (filter isCompleted (milestones this)))
                            / of_nat (length (milestones this)) :: rat)) \<or>
         (200 * length (filter isCompleted (milestones this)) + length (milestones this))
            mod (2 * length (milestones this)) = 0 \<and>
         actual (progress (project_pre_save this)) =
           of_int (round (100 * of_nat (length (filter isCompleted (milestones this)))
                            / of_nat (length (milestones this)) :: rat) - 1)"
proof -
  have "0 < length (milestones this)"
    using assms(1) by simp
  from percentage_rounding [OF this length_filter_le assms(2), of isCompleted]
  show ?thesis
    using assms(1) by (auto simp: project_pre_save_def Let_def)
qed

text \<open>Without the rounding of the quotient and of the product the two formulas agree.\<close>

lemma exact_percentage:
  "Math_round (of_nat c / of_nat n * 100) = round (100 * of_nat c / of_nat n :: rat)"
  by (simp add: Math_round_def round_def mult.commute)


lemma double_23_of_40:
  "js_divide 23 40 = 2589569785738035 / 2 ^ 52"
  "js_times (2589569785738035 / 2 ^ 52) 100 = 8092405580431359 / 2 ^ 47"
proof -
  have "binary64 (23 / 40) = of_int 5179139571476070 * 2 powi (- 1 - 52)"
    by (rule binary64_eqI) (simp_all add: power_int_def power_divide)
  then show "js_divide 23 40 = 2589569785738035 / 2 ^ 52"
    by (simp add: js_divide_def power_int_def power_divide)
  have "binary64 (2589569785738035 / 2 ^ 52 * 100) = of_int 8092405580431359 * 2 powi (5 - 52)"
    by (rule binary64_eqI) (simp_all add: power_int_def power_divide)
  then show "js_times (2589569785738035 / 2 ^ 52) 100 = 8092405580431359 / 2 ^ 47"
    by (simp add: js_times_def power_int_def power_divide)
qed

lemma counts_23_of_40:
  "length (milestones project_23_of_40) = 40"
  "length (filter isCompleted (milestones project_23_of_40)) = 23"
  by (simp_all add: project_23_of_40_def)

text \<open>
  C6. The project with 40 milestones of which 23 are completed is saved with
  \<open>progress.actual = 57\<close>: the quotient \<open>23 / 40\<close> is not a double, the nearest double
  lies below it, and its product with 100 rounds to the double just below 57.5. The
  completed share itself is 57.5 percent, which rounds to 58.
\<close>

theorem project_pre_save_23_of_40:
  "length (milestones project_23_of_40) = 40 \<and>
   length (filter isCompleted (milestones project_23_of_40)) = 23 \<and>
   actual (progress (project_pre_save project_23_of_40)) = 57 \<and>
   round (100 * 23 / 40 :: rat) = 58"
proof -
  have "Math_round (js_times (js_divide 23 40) 100) = 57"
    unfolding double_23_of_40 Math_round_def by (rule floor_unique) simp_all
  then have "actual (progress (project_pre_save project_23_of_40)) = 57"
    by (simp add: project_pre_save_def counts_23_of_40 Let_def)
  moreover have "round (100 * 23 / 40 :: rat) = 58"
    unfolding round_def by (rule floor_unique) simp_all
  ultimately show ?thesis
    by (simp add: counts_23_of_40)
qed

section \<open>Properties of the team recommendation\<close>





lemma length_sort_descending [simp]:
  "length (sort_descending key xs) = length xs"
  by (simp add: sort_descending_def)





















end
